theory Spec2Isabelle
  imports Complex_Main "HOL-Library.AList"
begin

section \<open>Exceptions\<close>

text \<open>
  The exceptions the pipeline can raise: \<open>ValueError\<close> from \<open>datetime.strptime\<close>,
  \<open>KeyError\<close> from subscripting a dict with a key it does not hold, and
  \<open>UnknownTimeZoneError\<close> from \<open>pytz.timezone\<close>. A function that can raise returns
  \<open>error + 'a\<close>, with \<open>Inl\<close> for the exception.
\<close>

datatype error = ValueError | KeyError string | UnknownTimeZoneError string

section \<open>Naive datetimes and Python's \<open>str\<close>\<close>

text \<open>
  A naive \<open>datetime\<close> is the number of microseconds since 1970-01-01 00:00:00 (a
  Thursday, weekday 3 with Monday = 0). A time of day printed by
  \<open>strftime("%H:%M:%S")\<close> is represented by its number of seconds since midnight:
  the zero-padded text and the number determine each other, and the order of the texts
  is the order of the numbers. A stored text that \<open>strptime\<close> is applied to is
  represented by the value \<open>strptime\<close> reads from it, \<open>None\<close> where \<open>strptime\<close>
  raises \<open>ValueError\<close>. Instants lie in the years 1000 to 9999, where printing a
  datetime with \<open>strftime\<close> and reading it back with \<open>strptime\<close> returns it.
\<close>

definition weekday :: "int \<Rightarrow> int" where
  "weekday t = (t div 86400000000 + 3) mod 7"

definition strftime_HMS :: "int \<Rightarrow> nat" where
  "strftime_HMS t = nat ((t div 1000000) mod 86400)"

definition strftime_H0000 :: "int \<Rightarrow> nat" where
  "strftime_H0000 t = 3600 * (strftime_HMS t div 3600)"

function str_nat :: "nat \<Rightarrow> string" where
  "str_nat n = (if n < 10 then [''0123456789'' ! n]
                else str_nat (n div 10) @ [''0123456789'' ! (n mod 10)])"
  by pat_completeness auto
termination
  by (relation "measure id") auto

definition str :: "int \<Rightarrow> string" where
  "str i = (if i < 0 then CHR ''-'' # str_nat (nat (- i)) else str_nat (nat i))"

text \<open>
  A dict with string keys is the list of its items in insertion order, no key twice.
  Subscripting raises \<open>KeyError\<close> on a key the dict does not hold; assigning to a key
  replaces the value in place, or adds the item at the end.
\<close>

type_synonym 'a dict = "(string \<times> 'a) list"

definition getitem :: "'a dict \<Rightarrow> string \<Rightarrow> error + 'a" where
  "getitem d k = (case map_of d k of None \<Rightarrow> Inl (KeyError k) | Some v \<Rightarrow> Inr v)"

definition setitem :: "'a dict \<Rightarrow> string \<Rightarrow> 'a \<Rightarrow> 'a dict" where
  "setitem d k v = AList.update k v d"

section \<open>The collections and the clock\<close>

text \<open>
  The three collections the pipeline reads, the timezone database behind
  \<open>pytz.timezone\<close> (a zone name gives the UTC offset in seconds at each UTC instant,
  \<open>None\<close> for a name pytz does not know), the instant of the run in UTC and the UTC
  offset of the host's own zone in seconds. \<open>datetime.now()\<close> takes no zone: it returns
  the host's local wall-clock time as a naive datetime. The clock is read once per run.
  \<open>store_status_coll\<close> lists the documents in the order the cursor sorted by
  \<open>timestamp_utc\<close> yields them; \<open>distinct\<close> lists the store ids in the order of
  their first document.
\<close>

record store_status_doc =
  doc_store_id :: string
  timestamp_utc :: "int option"
  doc_status :: string

record restaurant_tz_doc =
  tz_store_id :: string
  timezone_str :: string

record menu_hours_doc =
  mh_store_id :: string
  mh_day :: string
  mh_start_time_local :: "nat option"
  mh_end_time_local :: "nat option"

record env =
  store_status_coll :: "store_status_doc list"
  timezone_coll :: "restaurant_tz_doc list"
  menu_hours_coll :: "menu_hours_doc list"
  pytz_timezone :: "string \<Rightarrow> (int \<Rightarrow> int) option"
  now_utc :: int
  host_utcoffset :: int

definition datetime_now :: "env \<Rightarrow> int" where
  "datetime_now w = now_utc w + 1000000 * host_utcoffset w"

section \<open>Observation normalizer\<close>

record entry =
  timestamp_local :: nat
  status :: int

definition utc_to_local :: "env \<Rightarrow> int option \<Rightarrow> string \<Rightarrow> error + int" where
  "utc_to_local w utc_time_str timezone_str' =
     (case utc_time_str of
        None \<Rightarrow> Inl ValueError
      | Some utc_time \<Rightarrow>
          (case pytz_timezone w timezone_str' of
             None \<Rightarrow> Inl (UnknownTimeZoneError timezone_str')
           | Some local_tz \<Rightarrow> Inr (utc_time + 1000000 * local_tz utc_time)))"

definition get_timezone_using_store_id :: "env \<Rightarrow> string \<Rightarrow> string" where
  "get_timezone_using_store_id w sid =
     (case find (\<lambda>d. tz_store_id d = sid) (timezone_coll w) of
        Some result \<Rightarrow> timezone_str result
      | None \<Rightarrow> ''America/Chicago'')"

fun distinct_first :: "'a list \<Rightarrow> 'a list \<Rightarrow> 'a list" where
  "distinct_first seen [] = []"
| "distinct_first seen (x # xs) =
     (if x \<in> set seen then distinct_first seen xs else x # distinct_first (x # seen) xs)"

definition get_unique_store_ids_from_poll :: "env \<Rightarrow> string list" where
  "get_unique_store_ids_from_poll w = distinct_first [] (map doc_store_id (store_status_coll w))"

definition empty_week :: "'a list dict" where
  "empty_week = [(''0'', []), (''1'', []), (''2'', []), (''3'', []),
                 (''4'', []), (''5'', []), (''6'', [])]"

fun poll_loop ::
  "env \<Rightarrow> string \<Rightarrow> store_status_doc list \<Rightarrow> entry list dict
     \<Rightarrow> error + entry list dict" where
  "poll_loop w tz [] data = Inr data"
| "poll_loop w tz (doc # result) data =
     (case timestamp_utc doc of
        None \<Rightarrow> Inl ValueError
      | Some t \<Rightarrow>
          if t > datetime_now w then poll_loop w tz result data
          else
            (case utc_to_local w (timestamp_utc doc) tz of
               Inl e \<Rightarrow> Inl e
             | Inr local_time \<Rightarrow>
                 (case getitem data (str (weekday local_time)) of
                    Inl e \<Rightarrow> Inl e
                  | Inr bucket \<Rightarrow>
                      poll_loop w tz result
                        (setitem data (str (weekday local_time))
                           (bucket @ [\<lparr>timestamp_local = strftime_HMS local_time,
                                       status = (if doc_status doc = ''active'' then 1 else 0)\<rparr>])))))"

definition get_poll_data_of_store :: "env \<Rightarrow> string \<Rightarrow> error + entry list dict" where
  "get_poll_data_of_store w sid =
     poll_loop w (get_timezone_using_store_id w sid)
       (filter (\<lambda>d. doc_store_id d = sid) (store_status_coll w)) empty_week"

section \<open>Business-hours resolver and filter\<close>

record hours =
  start_time_local :: "nat option"
  end_time_local :: "nat option"

fun hours_loop ::
  "menu_hours_doc list \<Rightarrow> hours list dict \<Rightarrow> error + hours list dict" where
  "hours_loop [] business_hours = Inr business_hours"
| "hours_loop (rec # recs) business_hours =
     (case getitem business_hours (mh_day rec) of
        Inl e \<Rightarrow> Inl e
      | Inr hs \<Rightarrow>
          hours_loop recs
            (setitem business_hours (mh_day rec)
               (hs @ [\<lparr>start_time_local = mh_start_time_local rec,
                       end_time_local = mh_end_time_local rec\<rparr>])))"

definition full_day :: hours where
  "full_day = \<lparr>start_time_local = Some 0, end_time_local = Some 86399\<rparr>"

definition fill_default :: "hours list dict \<Rightarrow> hours list dict" where
  "fill_default business_hours =
     map (\<lambda>(d, hs). (d, if hs = [] then [full_day] else hs)) business_hours"

definition get_business_hours_of_store :: "env \<Rightarrow> string \<Rightarrow> error + hours list dict" where
  "get_business_hours_of_store w sid =
     (case hours_loop (filter (\<lambda>r. mh_store_id r = sid) (menu_hours_coll w)) empty_week of
        Inl e \<Rightarrow> Inl e
      | Inr business_hours \<Rightarrow> Inr (fill_default business_hours))"

text \<open>
  The inner loop of the filter: the intervals are tried in order, each one parsed when
  it is reached; the first one that holds the timestamp ends the loop (\<open>break\<close>) with
  the entry appended, which is the result \<open>True\<close>.
\<close>

fun match_hours :: "nat \<Rightarrow> hours list \<Rightarrow> error + bool" where
  "match_hours ts [] = Inr False"
| "match_hours ts (h # hs) =
     (case start_time_local h of
        None \<Rightarrow> Inl ValueError
      | Some start_time \<Rightarrow>
          (case end_time_local h of
             None \<Rightarrow> Inl ValueError
           | Some end_time \<Rightarrow>
               if start_time \<le> ts \<and> ts \<le> end_time then Inr True
               else match_hours ts hs))"

fun filter_loop :: "entry list \<Rightarrow> hours list \<Rightarrow> entry list \<Rightarrow> error + entry list" where
  "filter_loop [] day_business_hours filtered_status = Inr filtered_status"
| "filter_loop (e # es) day_business_hours filtered_status =
     (case match_hours (timestamp_local e) day_business_hours of
        Inl x \<Rightarrow> Inl x
      | Inr b \<Rightarrow>
          filter_loop es day_business_hours
            (if b then filtered_status @ [e] else filtered_status))"

definition filter_status_by_business_hours :: "entry list \<Rightarrow> hours list \<Rightarrow> error + entry list" where
  "filter_status_by_business_hours day_status day_business_hours =
     filter_loop day_status day_business_hours []"

section \<open>Hourly downsampler\<close>

text \<open>
  \<open>df.resample("60T").mean()\<close> is pandas: the bins are the clock hours from the hour of
  the earliest timestamp to the hour of the latest one, every hour in between included;
  a bin's value is the mean of the \<open>status\<close> values whose timestamp lies in it, and
  \<open>NaN\<close> (here \<open>None\<close>) for a bin that holds none. The means are exact rationals here.
  On empty data the function returns the empty frame, over which the callers' loops run
  zero times: the empty list.
\<close>

record sample =
  bin_timestamp_local :: nat
  bin_status :: "rat option"

definition mean_status :: "int list \<Rightarrow> rat option" where
  "mean_status xs =
     (if xs = [] then None else Some (of_int (sum_list xs) / of_int (int (length xs))))"

definition hour_of :: "entry \<Rightarrow> nat" where
  "hour_of e = timestamp_local e div 3600"

definition downsampled_data :: "entry list \<Rightarrow> sample list" where
  "downsampled_data data =
     (if data = [] then []
      else
        let first_hour = fold min (map hour_of data) (hour_of (hd data));
            last_hour = fold max (map hour_of data) (hour_of (hd data))
        in map (\<lambda>h. \<lparr>bin_timestamp_local = 3600 * h,
                      bin_status = mean_status (map status (filter (\<lambda>e. hour_of e = h) data))\<rparr>)
               [first_hour ..< Suc last_hour])"

fun per_day_loop ::
  "entry list dict \<Rightarrow> hours list dict \<Rightarrow> int list
     \<Rightarrow> sample list dict \<Rightarrow> error + sample list dict" where
  "per_day_loop store_poll_data business_hours [] per_day = Inr per_day"
| "per_day_loop store_poll_data business_hours (d # ds) per_day =
     (case getitem store_poll_data (str d) of
        Inl e \<Rightarrow> Inl e
      | Inr day_status \<Rightarrow>
          (case getitem business_hours (str d) of
             Inl e \<Rightarrow> Inl e
           | Inr day_business_hours \<Rightarrow>
               (case filter_status_by_business_hours day_status day_business_hours of
                  Inl e \<Rightarrow> Inl e
                | Inr filtered \<Rightarrow>
                    per_day_loop store_poll_data business_hours ds
                      (setitem per_day (str d)
                         (downsampled_data (sort_key timestamp_local filtered))))))"

definition get_store_poll_data_per_day ::
  "entry list dict \<Rightarrow> hours list dict \<Rightarrow> error + sample list dict" where
  "get_store_poll_data_per_day store_poll_data business_hours =
     per_day_loop store_poll_data business_hours [0, 1, 2, 3, 4, 5, 6] empty_week"

section \<open>Window aggregator\<close>

text \<open>
  The figures are exact rationals where the code computes IEEE doubles. What is proved
  of them are bounds; no equation between the code's rounded sums is.
\<close>

definition nan_to_zero :: "rat option \<Rightarrow> rat" where
  "nan_to_zero s = (case s of None \<Rightarrow> 0 | Some v \<Rightarrow> v)"

fun today_loop :: "nat \<Rightarrow> sample list \<Rightarrow> rat \<times> rat \<Rightarrow> rat \<times> rat" where
  "today_loop last_hour [] acc = acc"
| "today_loop last_hour (day_data # rest) (hours_today, minutes_last_hour) =
     today_loop last_hour rest
       (hours_today + nan_to_zero (bin_status day_data),
        if bin_timestamp_local day_data = last_hour
        then (case bin_status day_data of None \<Rightarrow> 0 | Some v \<Rightarrow> v * 60)
        else minutes_last_hour)"

definition uptime_today :: "env \<Rightarrow> sample list dict \<Rightarrow> error + rat \<times> rat" where
  "uptime_today w store_poll_data_per_day =
     (let last_weekday = weekday (datetime_now w) - 1;
          last_hour = strftime_H0000 (datetime_now w - 3600000000)
      in case getitem store_poll_data_per_day (str last_weekday) of
           Inl e \<Rightarrow> Inl e
         | Inr day \<Rightarrow> Inr (today_loop last_hour day (0, 0)))"

fun week_day_loop :: "sample list \<Rightarrow> rat \<Rightarrow> rat" where
  "week_day_loop [] hours_this_week = hours_this_week"
| "week_day_loop (day_data # rest) hours_this_week =
     week_day_loop rest (hours_this_week + nan_to_zero (bin_status day_data))"

fun week_loop :: "sample list dict \<Rightarrow> int list \<Rightarrow> rat \<Rightarrow> error + rat" where
  "week_loop store_poll_data_per_day [] hours_this_week = Inr hours_this_week"
| "week_loop store_poll_data_per_day (d # ds) hours_this_week =
     (case getitem store_poll_data_per_day (str d) of
        Inl e \<Rightarrow> Inl e
      | Inr day \<Rightarrow> week_loop store_poll_data_per_day ds (week_day_loop day hours_this_week))"

definition uptime_hours_this_week :: "sample list dict \<Rightarrow> error + rat" where
  "uptime_hours_this_week store_poll_data_per_day =
     week_loop store_poll_data_per_day [0, 1, 2, 3, 4, 5, 6] 0"

section \<open>Report orchestrator\<close>

record report_row =
  store_id :: string
  uptime_last_hour :: rat
  downtime_last_hour :: rat
  uptime_last_day :: rat
  downtime_last_day :: rat
  uptime_last_week :: rat
  downtime_last_week :: rat

text \<open>The body of the loop of \<open>generate_report\<close>: the row of one store.\<close>

definition current_result :: "env \<Rightarrow> string \<Rightarrow> error + report_row" where
  "current_result w sid =
     (case get_poll_data_of_store w sid of
        Inl e \<Rightarrow> Inl e
      | Inr store_poll_data \<Rightarrow>
     (case get_business_hours_of_store w sid of
        Inl e \<Rightarrow> Inl e
      | Inr business_hours \<Rightarrow>
     (case get_store_poll_data_per_day store_poll_data business_hours of
        Inl e \<Rightarrow> Inl e
      | Inr store_poll_data_per_day \<Rightarrow>
     (case uptime_today w store_poll_data_per_day of
        Inl e \<Rightarrow> Inl e
      | Inr (hours_today, minutes_last_hour) \<Rightarrow>
     (case uptime_hours_this_week store_poll_data_per_day of
        Inl e \<Rightarrow> Inl e
      | Inr hours_this_week \<Rightarrow>
          Inr \<lparr>store_id = sid,
               uptime_last_hour = minutes_last_hour,
               downtime_last_hour = 60 - minutes_last_hour,
               uptime_last_day = hours_today,
               downtime_last_day = 24 - hours_today,
               uptime_last_week = hours_this_week,
               downtime_last_week = 168 - hours_this_week\<rparr>)))))"

fun report_loop :: "env \<Rightarrow> string list \<Rightarrow> report_row list \<Rightarrow> error + report_row list" where
  "report_loop w [] result = Inr result"
| "report_loop w (sid # sids) result =
     (case current_result w sid of
        Inl e \<Rightarrow> Inl e
      | Inr row \<Rightarrow> report_loop w sids (result @ [row]))"

definition generate_report :: "env \<Rightarrow> error + report_row list" where
  "generate_report w = report_loop w (get_unique_store_ids_from_poll w) []"

section \<open>Report job coordinator\<close>

text \<open>
  The \<open>reports\<close> collection holds the sentinel document
  \<open>{sentinel_id: 0, status, report_id}\<close> and one document
  \<open>{report_id, report, report_status}\<close> per finished run. \<open>find_one\<close> returns the first
  document that matches, \<open>update_one\<close> changes the first document that matches and
  nothing when none does. The id \<open>uuid.uuid4()\<close> draws is an argument. When
  \<open>generate_report\<close> raises, the exception leaves \<open>trigger_report\<close> at that call: the
  result is the collection as it is then, with the exception.
\<close>

datatype reports_doc =
  Sentinel (sentinel_status: string) (sentinel_report_id: string)
| Report (report_id: string) (report: "report_row list") (report_status: string)

record json_response =
  message :: string
  response_report_id :: string
  status_code :: nat

fun sentinel_with_status :: "string \<Rightarrow> reports_doc \<Rightarrow> bool" where
  "sentinel_with_status s (Sentinel st rid) = (st = s)"
| "sentinel_with_status s (Report rid rows st) = False"

fun is_sentinel :: "reports_doc \<Rightarrow> bool" where
  "is_sentinel (Sentinel st rid) = True"
| "is_sentinel (Report rid rows st) = False"

fun update_one ::
  "(reports_doc \<Rightarrow> bool) \<Rightarrow> (reports_doc \<Rightarrow> reports_doc) \<Rightarrow> reports_doc list \<Rightarrow> reports_doc list" where
  "update_one p f [] = []"
| "update_one p f (d # ds) = (if p d then f d # ds else d # update_one p f ds)"

fun set_status :: "string \<Rightarrow> reports_doc \<Rightarrow> reports_doc" where
  "set_status s (Sentinel st rid) = Sentinel s rid"
| "set_status s (Report rid rows st) = Report rid rows st"

fun set_status_report_id :: "string \<Rightarrow> string \<Rightarrow> reports_doc \<Rightarrow> reports_doc" where
  "set_status_report_id s r (Sentinel st rid) = Sentinel s r"
| "set_status_report_id s r (Report rid rows st) = Report rid rows st"

definition trigger_report ::
  "env \<Rightarrow> string \<Rightarrow> reports_doc list \<Rightarrow> reports_doc list \<times> (error + json_response)" where
  "trigger_report w uuid4 reports_coll =
     (case find (sentinel_with_status ''running'') reports_coll of
        Some running_doc \<Rightarrow>
          (reports_coll,
           Inr \<lparr>message = ''Running'',
                response_report_id = sentinel_report_id running_doc,
                status_code = 400\<rparr>)
      | None \<Rightarrow>
          (let reports_coll1 =
                 update_one (sentinel_with_status ''complete'')
                   (set_status_report_id ''running'' uuid4) reports_coll
           in case generate_report w of
                Inl e \<Rightarrow> (reports_coll1, Inl e)
              | Inr rows \<Rightarrow>
                  (update_one is_sentinel (set_status ''complete'')
                     (reports_coll1 @ [Report uuid4 rows ''complete'']),
                   Inr \<lparr>message = ''Complete'',
                        response_report_id = uuid4,
                        status_code = 200\<rparr>)))"

section \<open>Notions used in the statements\<close>

text \<open>
  The keys of a week dict; the local time of a UTC instant in a zone; the documents of a
  list that the normalizer puts into the bucket of key \<open>k\<close> (parsed, not after
  \<open>datetime.now()\<close>, local weekday \<open>k\<close>) and the entry it makes of a document; whether a
  time of day lies in an interval, both ends included (an interval with an endpoint that
  does not parse holds no time); whether both endpoints of an interval parse; whether the
  first interval of a list that holds the time or does not parse is one that does not
  parse, which is when looking the time up in the list raises; and the ranges of the
  values the pipeline carries.
\<close>

definition week_keys :: "string list" where
  "week_keys = [''0'', ''1'', ''2'', ''3'', ''4'', ''5'', ''6'']"

definition local_time_of :: "(int \<Rightarrow> int) \<Rightarrow> int \<Rightarrow> int" where
  "local_time_of off t = t + 1000000 * off t"

definition bucket_docs ::
  "env \<Rightarrow> (int \<Rightarrow> int) \<Rightarrow> string \<Rightarrow> store_status_doc list \<Rightarrow> store_status_doc list" where
  "bucket_docs w off k docs =
     filter (\<lambda>d. case timestamp_utc d of
                   None \<Rightarrow> False
                 | Some t \<Rightarrow> \<not> t > datetime_now w \<and> str (weekday (local_time_of off t)) = k) docs"

definition entry_of :: "(int \<Rightarrow> int) \<Rightarrow> store_status_doc \<Rightarrow> entry" where
  "entry_of off d =
     \<lparr>timestamp_local =
        (case timestamp_utc d of None \<Rightarrow> 0 | Some t \<Rightarrow> strftime_HMS (local_time_of off t)),
      status = (if doc_status d = ''active'' then 1 else 0)\<rparr>"

definition inside_hours :: "nat \<Rightarrow> hours \<Rightarrow> bool" where
  "inside_hours ts h =
     (case start_time_local h of
        None \<Rightarrow> False
      | Some s \<Rightarrow> (case end_time_local h of None \<Rightarrow> False | Some e \<Rightarrow> s \<le> ts \<and> ts \<le> e))"

definition well_formed :: "hours \<Rightarrow> bool" where
  "well_formed h = (start_time_local h \<noteq> None \<and> end_time_local h \<noteq> None)"

definition raises_on :: "nat \<Rightarrow> hours list \<Rightarrow> bool" where
  "raises_on ts bh =
     (case dropWhile (\<lambda>h. well_formed h \<and> \<not> inside_hours ts h) bh of
        [] \<Rightarrow> False
      | h # _ \<Rightarrow> \<not> well_formed h)"

definition entries_ok :: "entry list \<Rightarrow> bool" where
  "entries_ok es = (\<forall>e\<in>set es. (status e = 0 \<or> status e = 1) \<and> timestamp_local e < 86400)"

definition samples_ok :: "sample list \<Rightarrow> bool" where
  "samples_ok ss =
     (length ss \<le> 24 \<and>
      (\<forall>s\<in>set ss. 0 \<le> nan_to_zero (bin_status s) \<and> nan_to_zero (bin_status s) \<le> 1))"

section \<open>Example runs\<close>

text \<open>
  Store \<open>s1\<close> has no timezone document (so \<open>America/Chicago\<close>, six hours behind UTC in
  January) and no business hours. Its pings are at 2024-01-08 15:00:00, 15:30:00 and
  16:00:00 UTC, a Monday: 09:00:00, 09:30:00 and 10:00:00 local time.
  \<^item> \<open>env_tuesday\<close>: the host runs on UTC, the run is at 2024-01-09 10:30:00 UTC (Tuesday).
  \<^item> \<open>env_monday\<close>: the same, the run is at 2024-01-08 17:30:00 UTC (Monday).
  \<^item> \<open>env_two_sites\<close>: as \<open>env_tuesday\<close>, with a second store \<open>s2\<close> whose one document
    has a timestamp that \<open>strptime\<close> rejects.
  \<^item> \<open>env_status\<close>: as \<open>env_tuesday\<close> at 12:30:00 UTC, the pings having status
    \<open>active\<close> and \<open>ACTIVE\<close>.
  \<^item> \<open>env_ahead\<close>: the host's zone is five and a half hours ahead of UTC, the run is at
    2024-01-09 12:30:00 UTC, and the one ping is dated 13:00:00 UTC of that day.
\<close>

definition tzdb :: "string \<Rightarrow> (int \<Rightarrow> int) option" where
  "tzdb tz = (if tz = ''America/Chicago'' then Some (\<lambda>t. - 21600) else None)"

definition env_tuesday :: env where
  "env_tuesday =
     \<lparr>store_status_coll =
        [\<lparr>doc_store_id = ''s1'', timestamp_utc = Some 1704726000000000, doc_status = ''active''\<rparr>,
         \<lparr>doc_store_id = ''s1'', timestamp_utc = Some 1704727800000000, doc_status = ''inactive''\<rparr>,
         \<lparr>doc_store_id = ''s1'', timestamp_utc = Some 1704729600000000, doc_status = ''inactive''\<rparr>],
      timezone_coll = [], menu_hours_coll = [], pytz_timezone = tzdb,
      now_utc = 1704796200000000, host_utcoffset = 0\<rparr>"

definition env_monday :: env where
  "env_monday = env_tuesday\<lparr>now_utc := 1704735000000000\<rparr>"

definition env_two_sites :: env where
  "env_two_sites =
     env_tuesday\<lparr>store_status_coll :=
       store_status_coll env_tuesday @
         [\<lparr>doc_store_id = ''s2'', timestamp_utc = None, doc_status = ''active''\<rparr>]\<rparr>"

definition env_status :: env where
  "env_status =
     \<lparr>store_status_coll =
        [\<lparr>doc_store_id = ''s1'', timestamp_utc = Some 1704726000000000, doc_status = ''active''\<rparr>,
         \<lparr>doc_store_id = ''s1'', timestamp_utc = Some 1704729600000000, doc_status = ''ACTIVE''\<rparr>],
      timezone_coll = [], menu_hours_coll = [], pytz_timezone = tzdb,
      now_utc = 1704803400000000, host_utcoffset = 0\<rparr>"

definition env_ahead :: env where
  "env_ahead =
     \<lparr>store_status_coll =
        [\<lparr>doc_store_id = ''s1'', timestamp_utc = Some 1704805200000000, doc_status = ''active''\<rparr>],
      timezone_coll = [], menu_hours_coll = [], pytz_timezone = tzdb,
      now_utc = 1704803400000000, host_utcoffset = 19800\<rparr>"

definition monday_entries :: "entry list dict" where
  "monday_entries =
     [(''0'', [\<lparr>timestamp_local = 32400, status = 1\<rparr>, \<lparr>timestamp_local = 34200, status = 0\<rparr>,
               \<lparr>timestamp_local = 36000, status = 0\<rparr>]),
      (''1'', []), (''2'', []), (''3'', []), (''4'', []), (''5'', []), (''6'', [])]"

definition monday_samples :: "sample list dict" where
  "monday_samples =
     [(''0'', [\<lparr>bin_timestamp_local = 32400, bin_status = Some (1 / 2)\<rparr>,
               \<lparr>bin_timestamp_local = 36000, bin_status = Some 0\<rparr>]),
      (''1'', []), (''2'', []), (''3'', []), (''4'', []), (''5'', []), (''6'', [])]"

definition row_tuesday :: report_row where
  "row_tuesday =
     \<lparr>store_id = ''s1'', uptime_last_hour = 30, downtime_last_hour = 30,
      uptime_last_day = 1 / 2, downtime_last_day = 47 / 2,
      uptime_last_week = 1 / 2, downtime_last_week = 335 / 2\<rparr>"

definition tuesday_entries :: "entry list dict" where
  "tuesday_entries =
     [(''0'', []), (''1'', [\<lparr>timestamp_local = 25200, status = 1\<rparr>]), (''2'', []),
      (''3'', []), (''4'', []), (''5'', []), (''6'', [])]"

definition tuesday_samples :: "sample list dict" where
  "tuesday_samples =
     [(''0'', []), (''1'', [\<lparr>bin_timestamp_local = 25200, bin_status = Some 1\<rparr>]), (''2'', []),
      (''3'', []), (''4'', []), (''5'', []), (''6'', [])]"

definition row_ahead :: report_row where
  "row_ahead =
     \<lparr>store_id = ''s1'', uptime_last_hour = 0, downtime_last_hour = 60,
      uptime_last_day = 0, downtime_last_day = 24,
      uptime_last_week = 1, downtime_last_week = 167\<rparr>"

definition overlapping_hours :: "hours list" where
  "overlapping_hours =
     [\<lparr>start_time_local = Some 28800, end_time_local = Some 61200\<rparr>,
      \<lparr>start_time_local = Some 32400, end_time_local = Some 43200\<rparr>]"

definition gap_data :: "entry list" where
  "gap_data = [\<lparr>timestamp_local = 32400, status = 1\<rparr>, \<lparr>timestamp_local = 34200, status = 0\<rparr>,
               \<lparr>timestamp_local = 39600, status = 0\<rparr>]"

section \<open>Week dicts\<close>

text \<open>
  Every weekday a datetime can have is a key of a week dict, \<open>-1\<close> is not, and assigning
  to a key the dict holds changes that item only.
\<close>

lemma keys_empty_week: "map fst (empty_week :: 'a list dict) = week_keys"
  by (simp add: empty_week_def week_keys_def)

lemma distinct_week_keys: "distinct week_keys"
  by (simp add: week_keys_def)

lemma weekday_range: "0 \<le> weekday t \<and> weekday t < 7"
  by (simp add: weekday_def)

lemma str_small:
  "str 0 = ''0''" "str 1 = ''1''" "str 2 = ''2''" "str 3 = ''3''"
  "str 4 = ''4''" "str 5 = ''5''" "str 6 = ''6''" "str (- 1) = ''-1''"
  by (simp_all add: str_def)

lemma week_cases: "0 \<le> (i::int) \<Longrightarrow> i < 7 \<Longrightarrow> i = 0 \<or> i = 1 \<or> i = 2 \<or> i = 3 \<or> i = 4 \<or> i = 5 \<or> i = 6"
  by arith

lemma str_week_keys: "0 \<le> i \<Longrightarrow> i < 7 \<Longrightarrow> str i \<in> set week_keys"
  using week_cases [of i] by (auto simp: str_small week_keys_def)

lemma str_weekday: "str (weekday t) \<in> set week_keys"
  using weekday_range [of t] by (simp add: str_week_keys)

lemma setitem_eq_map:
  "distinct (map fst d) \<Longrightarrow> k \<in> set (map fst d) \<Longrightarrow>
     setitem d k v = map (\<lambda>(k', x). (k', if k' = k then v else x)) d"
  unfolding setitem_def
proof (induction d)
  case Nil
  then show ?case by simp
next
  case (Cons p d)
  show ?case
  proof (cases "fst p = k")
    case True
    with Cons.prems have "k \<notin> set (map fst d)" by auto
    then have "map (\<lambda>(k', x). (k', if k' = k then v else x)) d = d"
      by (induction d) auto
    with True show ?thesis by (cases p) simp
  next
    case False
    with Cons show ?thesis by (cases p) auto
  qed
qed

lemma keys_setitem:
  "k \<in> set (map fst d) \<Longrightarrow> map fst (setitem d k v) = map fst d"
  by (simp add: setitem_def update_keys)

lemma getitem_present:
  "k \<in> set (map fst d) \<Longrightarrow> \<exists>v. getitem d k = Inr v \<and> map_of d k = Some v"
  by (cases "map_of d k") (auto simp: getitem_def map_of_eq_None_iff)

section \<open>Observation normalizer: the buckets\<close>

text \<open>
  When every timestamp of the store parses and pytz knows the zone, the loop returns, and
  each bucket has grown by the entries of its documents, in the order of the cursor.
\<close>

lemma poll_loop_Inr:
  assumes "\<forall>d\<in>set docs. timestamp_utc d \<noteq> None"
    and "pytz_timezone w tz = Some off"
    and "map fst data = week_keys"
  shows "poll_loop w tz docs data =
           Inr (map (\<lambda>(k, es). (k, es @ map (entry_of off) (bucket_docs w off k docs))) data)"
  using assms
proof (induction docs arbitrary: data)
  case Nil
  have "map (\<lambda>(k, es). (k, es)) data = data"
    by (induction data) auto
  then show ?case by (simp add: bucket_docs_def)
next
  case (Cons doc docs)
  from Cons.prems obtain t where t: "timestamp_utc doc = Some t" by auto
  show ?case
  proof (cases "t > datetime_now w")
    case True
    have "bucket_docs w off k (doc # docs) = bucket_docs w off k docs" for k
      using t True by (simp add: bucket_docs_def)
    then show ?thesis using Cons t True by simp
  next
    case False
    let ?k = "str (weekday (local_time_of off t))"
    have kin: "?k \<in> set (map fst data)"
      using Cons.prems(3) str_weekday by simp
    have dist: "distinct (map fst data)"
      using Cons.prems(3) distinct_week_keys by simp
    from getitem_present [OF kin]
    obtain bucket where b: "getitem data ?k = Inr bucket" "map_of data ?k = Some bucket" by auto
    let ?e = "entry_of off doc"
    let ?data' = "setitem data ?k (bucket @ [?e])"
    have keys': "map fst ?data' = week_keys"
      using Cons.prems(3) kin by (simp add: keys_setitem)
    have step: "poll_loop w tz (doc # docs) data = poll_loop w tz docs ?data'"
      using t False b Cons.prems(2)
      by (simp add: utc_to_local_def local_time_of_def entry_of_def)
    have IH: "poll_loop w tz docs ?data' =
        Inr (map (\<lambda>(k, es). (k, es @ map (entry_of off) (bucket_docs w off k docs))) ?data')"
      by (rule Cons.IH [OF _ Cons.prems(2) keys']) (use Cons.prems(1) in simp)
    have "map (\<lambda>(k, es). (k, es @ map (entry_of off) (bucket_docs w off k docs))) ?data'
        = map (\<lambda>(k, es). (k, es @ map (entry_of off) (bucket_docs w off k (doc # docs)))) data"
      unfolding setitem_eq_map [OF dist kin] map_map
    proof (rule map_cong [OF refl])
      fix x assume x: "x \<in> set data"
      obtain k' es where xe: "x = (k', es)" by (cases x)
      have "k' = ?k \<Longrightarrow> es = bucket"
        using x xe b(2) dist by simp
      then show "((\<lambda>(k, es). (k, es @ map (entry_of off) (bucket_docs w off k docs))) \<circ>
                  (\<lambda>(k', x). (k', if k' = ?k then bucket @ [?e] else x))) x
               = (\<lambda>(k, es). (k, es @ map (entry_of off) (bucket_docs w off k (doc # docs)))) x"
        using t False xe by (auto simp: bucket_docs_def)
    qed
    with step IH show ?thesis by simp
  qed
qed


lemma map_of_map_week:
  "map fst d = week_keys \<Longrightarrow> k \<in> set week_keys \<Longrightarrow>
     \<exists>es. map_of d k = Some es \<and> map_of (map (\<lambda>(k, es). (k, f k es)) d) k = Some (f k es)"
proof -
  assume a: "map fst d = week_keys" "k \<in> set week_keys"
  then obtain es where "map_of d k = Some es"
    using getitem_present [of k d] by auto
  moreover have "map_of (map (\<lambda>(k, es). (k, f k es)) d) k = map_option (f k) (map_of d k)"
    by (induction d) auto
  ultimately show ?thesis by simp
qed

text \<open>
  Claim C10. The normalizer maps the status text of a document to 1 if and only if it
  is exactly \<open>active\<close>, and any other text to 0; the text never makes the normalizer fail
  and never makes it skip the document: with parsable timestamps and a known zone it
  returns a dict of the seven weekday keys, and the bucket of key \<open>k\<close> holds one entry
  per document of that bucket, with the status so mapped.
\<close>

theorem status_active_iff:
  assumes "\<forall>d\<in>set (store_status_coll w). doc_store_id d = sid \<longrightarrow> timestamp_utc d \<noteq> None"
    and "pytz_timezone w (get_timezone_using_store_id w sid) = Some off"
  shows "\<exists>data. get_poll_data_of_store w sid = Inr data \<and> map fst data = week_keys \<and>
           (\<forall>k\<in>set week_keys. \<exists>es. map_of data k = Some es \<and>
              map status es =
                map (\<lambda>d. if doc_status d = ''active'' then 1 else 0)
                  (bucket_docs w off k (filter (\<lambda>d. doc_store_id d = sid) (store_status_coll w))))"
proof -
  let ?docs = "filter (\<lambda>d. doc_store_id d = sid) (store_status_coll w)"
  let ?f = "\<lambda>k es. es @ map (entry_of off) (bucket_docs w off k ?docs)"
  let ?data = "map (\<lambda>(k, es). (k, ?f k es)) (empty_week :: entry list dict)"
  have "\<forall>d\<in>set ?docs. timestamp_utc d \<noteq> None" using assms(1) by simp
  from poll_loop_Inr [OF this assms(2) keys_empty_week]
  have r: "get_poll_data_of_store w sid = Inr ?data"
    by (simp add: get_poll_data_of_store_def)
  have keys: "map fst ?data = week_keys"
    by (simp add: empty_week_def week_keys_def)
  have "\<exists>es. map_of ?data k = Some es \<and>
          map status es = map (\<lambda>d. if doc_status d = ''active'' then 1 else 0) (bucket_docs w off k ?docs)"
    if k: "k \<in> set week_keys" for k
  proof -
    have "map_of (empty_week :: entry list dict) k = Some []"
      using k by (auto simp: empty_week_def week_keys_def)
    with map_of_map_week [OF keys_empty_week k, of ?f]
    have "map_of ?data k = Some (map (entry_of off) (bucket_docs w off k ?docs))" by auto
    then show ?thesis by (simp add: entry_of_def comp_def)
  qed
  with r keys show ?thesis by blast
qed

text \<open>
  In \<open>env_status\<close> the Monday bucket holds a 1 for \<open>active\<close> and a 0 for \<open>ACTIVE\<close>.
\<close>

theorem status_active_iff_witness:
  "\<exists>data. get_poll_data_of_store env_status ''s1'' = Inr data \<and>
      (\<exists>es. map_of data ''0'' = Some es \<and> map status es = [1, 0])"
proof -
  have h1: "\<forall>d\<in>set (store_status_coll env_status). doc_store_id d = ''s1'' \<longrightarrow> timestamp_utc d \<noteq> None"
    by (simp add: env_status_def)
  have h2: "pytz_timezone env_status (get_timezone_using_store_id env_status ''s1'') = Some (\<lambda>t. - 21600)"
    by (simp add: env_status_def get_timezone_using_store_id_def tzdb_def)
  have k: "''0'' \<in> set week_keys" by (simp add: week_keys_def)
  have b: "map (\<lambda>d. if doc_status d = ''active'' then 1 else 0)
             (bucket_docs env_status (\<lambda>t. - 21600) ''0''
               (filter (\<lambda>d. doc_store_id d = ''s1'') (store_status_coll env_status))) = [1, 0::int]"
    by (simp add: bucket_docs_def env_status_def datetime_now_def local_time_of_def weekday_def str_small)
  from status_active_iff [OF h1 h2] k b show ?thesis by fastforce
qed

section \<open>Evaluating the example runs\<close>

lemmas clock_defs = datetime_now_def weekday_def strftime_HMS_def strftime_H0000_def

lemmas poll_defs = get_poll_data_of_store_def get_timezone_using_store_id_def clock_defs
  utc_to_local_def tzdb_def str_small getitem_def setitem_def empty_week_def

lemmas per_day_defs = get_store_poll_data_per_day_def str_small getitem_def setitem_def
  empty_week_def fill_default_def full_day_def filter_status_by_business_hours_def
  downsampled_data_def hour_of_def mean_status_def

lemma ahead_poll: "get_poll_data_of_store env_ahead ''s1'' = Inr tuesday_entries"
  by (simp add: env_ahead_def poll_defs tuesday_entries_def)

lemma ahead_hours: "get_business_hours_of_store env_ahead ''s1'' = Inr (fill_default empty_week)"
  by (simp add: get_business_hours_of_store_def env_ahead_def)

lemma tuesday_per_day:
  "get_store_poll_data_per_day tuesday_entries (fill_default empty_week) = Inr tuesday_samples"
  by (simp add: per_day_defs tuesday_entries_def tuesday_samples_def)

lemma ahead_today: "uptime_today env_ahead tuesday_samples = Inr (0, 0)"
  by (simp add: uptime_today_def env_ahead_def clock_defs tuesday_samples_def str_small getitem_def)

lemma tuesday_week: "uptime_hours_this_week tuesday_samples = Inr 1"
  by (simp add: uptime_hours_this_week_def tuesday_samples_def str_small getitem_def nan_to_zero_def)

lemma ahead_row: "current_result env_ahead ''s1'' = Inr row_ahead"
  by (simp add: current_result_def ahead_poll ahead_hours tuesday_per_day ahead_today
      tuesday_week row_ahead_def)

lemma ahead_ids: "get_unique_store_ids_from_poll env_ahead = [''s1'']"
  by (simp add: get_unique_store_ids_from_poll_def env_ahead_def)

text \<open>
  Claim C3. An observation dated strictly after the processing instant in UTC should be
  left out of every weekday bucket and of every uptime figure. The normalizer compares
  the UTC timestamp with \<open>datetime.now()\<close>, the host's local wall clock, while
  \<open>utc_to_local\<close> reads the same text as UTC. In \<open>env_ahead\<close> the host is ahead of UTC;
  the ping dated half an hour after the run is put into the Tuesday bucket, and it is
  the whole of \<open>uptime_last_week\<close> in the report.
\<close>

theorem future_observation_kept:
  "map timestamp_utc (store_status_coll env_ahead) = [Some (now_utc env_ahead + 1800000000)] \<and>
   get_poll_data_of_store env_ahead ''s1'' = Inr tuesday_entries \<and>
   generate_report env_ahead = Inr [row_ahead] \<and> uptime_last_week row_ahead = 1"
proof -
  have "map timestamp_utc (store_status_coll env_ahead) = [Some (now_utc env_ahead + 1800000000)]"
    by (simp add: env_ahead_def)
  moreover have "generate_report env_ahead = Inr [row_ahead]"
    by (simp add: generate_report_def ahead_ids ahead_row)
  ultimately show ?thesis by (simp add: ahead_poll row_ahead_def)
qed

section \<open>Business-hours filter\<close>

text \<open>
  The inner loop tries the intervals in order and stops at the first one that holds the
  timestamp or does not parse: it raises when that one does not parse, and otherwise says
  whether some interval holds the timestamp. The outer loop raises when the inner loop
  raises for one of the entries, and otherwise keeps the entries for which the inner loop
  says yes. Whatever the filter returns is made of entries of its input.
\<close>

lemma match_hours_char:
  "match_hours ts bh =
     (if raises_on ts bh then Inl ValueError else Inr (\<exists>h\<in>set bh. inside_hours ts h))"
proof (induction bh)
  case Nil
  then show ?case by (simp add: raises_on_def)
next
  case (Cons h hs)
  show ?case
  proof (cases "well_formed h")
    case False
    then show ?thesis
      by (auto simp: raises_on_def well_formed_def split: option.splits)
  next
    case True
    then obtain s e where se: "start_time_local h = Some s" "end_time_local h = Some e"
      by (auto simp: well_formed_def)
    show ?thesis
    proof (cases "inside_hours ts h")
      case True
      with se \<open>well_formed h\<close> show ?thesis
        by (simp add: raises_on_def inside_hours_def)
    next
      case False
      with \<open>well_formed h\<close> have r: "raises_on ts (h # hs) = raises_on ts hs"
        by (simp add: raises_on_def)
      from False se have "\<not> (s \<le> ts \<and> ts \<le> e)"
        by (simp add: inside_hours_def)
      with se have m: "match_hours ts (h # hs) = match_hours ts hs"
        by auto
      from False have "(\<exists>x\<in>set (h # hs). inside_hours ts x) = (\<exists>x\<in>set hs. inside_hours ts x)"
        by simp
      with r m Cons.IH show ?thesis
        by (simp only:)
    qed
  qed
qed

lemma filter_loop_char:
  "filter_loop ds bh acc =
     (if \<exists>e\<in>set ds. raises_on (timestamp_local e) bh then Inl ValueError
      else Inr (acc @ filter (\<lambda>e. \<exists>h\<in>set bh. inside_hours (timestamp_local e) h) ds))"
  by (induction ds arbitrary: acc) (simp_all add: match_hours_char)

lemma filter_loop_subset:
  "filter_loop ds bh acc = Inr out \<Longrightarrow> set out \<subseteq> set acc \<union> set ds"
proof (induction ds arbitrary: acc)
  case Nil
  then show ?case by simp
next
  case (Cons e es)
  then show ?case by (fastforce split: sum.splits if_splits)
qed

text \<open>
  Claim C6. The business-hours filter is a true filter, for every observation list and
  every interval list: whenever it returns, its output is the input list restricted to
  the entries whose time of day lies in at least one interval of the day, both ends of
  an interval included. The entries kept are the input's own, unchanged and in the
  input's order, each as many times as the input holds it, however many intervals it
  lies in. It returns unless, for some entry, an interval that does not parse comes
  before every interval that holds the entry; then \<open>strptime\<close> raises \<open>ValueError\<close>.
\<close>

theorem filter_status_true_filter:
  "filter_status_by_business_hours day_status day_business_hours =
     (if \<exists>e\<in>set day_status. raises_on (timestamp_local e) day_business_hours
      then Inl ValueError
      else Inr (filter (\<lambda>e. \<exists>h\<in>set day_business_hours. inside_hours (timestamp_local e) h)
                  day_status))"
  by (simp add: filter_status_by_business_hours_def filter_loop_char)

text \<open>
  With two overlapping intervals, 08:00:00 to 17:00:00 and 09:00:00 to 12:00:00: the entry
  at 10:00:00 lies in both and is kept once, the entry at 17:00:00 is kept, the entries at
  17:00:01 and 07:59:59 are dropped. With an interval that does not parse behind one that
  holds the entry, the filter returns the entry. With an interval that does not parse and
  an entry outside it, the filter raises.
\<close>

theorem filter_status_true_filter_witness:
  "filter_status_by_business_hours
     [\<lparr>timestamp_local = 36000, status = 1\<rparr>, \<lparr>timestamp_local = 61201, status = 1\<rparr>,
      \<lparr>timestamp_local = 61200, status = 0\<rparr>, \<lparr>timestamp_local = 28799, status = 0\<rparr>]
     overlapping_hours =
   Inr [\<lparr>timestamp_local = 36000, status = 1\<rparr>, \<lparr>timestamp_local = 61200, status = 0\<rparr>] \<and>
   filter_status_by_business_hours
     [\<lparr>timestamp_local = 36000, status = 1\<rparr>]
     [\<lparr>start_time_local = Some 32400, end_time_local = Some 43200\<rparr>,
      \<lparr>start_time_local = Some 0, end_time_local = None\<rparr>] =
   Inr [\<lparr>timestamp_local = 36000, status = 1\<rparr>] \<and>
   filter_status_by_business_hours
     [\<lparr>timestamp_local = 10800, status = 1\<rparr>]
     [\<lparr>start_time_local = Some 32400, end_time_local = None\<rparr>] =
   Inl ValueError"
proof -
  have 1: "filter_status_by_business_hours
     [\<lparr>timestamp_local = 36000, status = 1\<rparr>, \<lparr>timestamp_local = 61201, status = 1\<rparr>,
      \<lparr>timestamp_local = 61200, status = 0\<rparr>, \<lparr>timestamp_local = 28799, status = 0\<rparr>]
     overlapping_hours =
   Inr [\<lparr>timestamp_local = 36000, status = 1\<rparr>, \<lparr>timestamp_local = 61200, status = 0\<rparr>]"
    unfolding filter_status_true_filter
    by (simp add: overlapping_hours_def inside_hours_def raises_on_def well_formed_def)
  have 2: "filter_status_by_business_hours
     [\<lparr>timestamp_local = 36000, status = 1\<rparr>]
     [\<lparr>start_time_local = Some 32400, end_time_local = Some 43200\<rparr>,
      \<lparr>start_time_local = Some 0, end_time_local = None\<rparr>] =
   Inr [\<lparr>timestamp_local = 36000, status = 1\<rparr>]"
    unfolding filter_status_true_filter
    by (simp add: inside_hours_def raises_on_def well_formed_def)
  have 3: "filter_status_by_business_hours
     [\<lparr>timestamp_local = 10800, status = 1\<rparr>]
     [\<lparr>start_time_local = Some 32400, end_time_local = None\<rparr>] =
   Inl ValueError"
    unfolding filter_status_true_filter
    by (simp add: inside_hours_def raises_on_def well_formed_def)
  from 1 2 3 show ?thesis by blast
qed

section \<open>Hourly downsampler\<close>

lemma fold_min_Min: "fold min xs (x::nat) = Min (set (x # xs))"
  using Min.set_eq_fold [of x xs] by simp

lemma fold_max_Max: "fold max xs (x::nat) = Max (set (x # xs))"
  using Max.set_eq_fold [of x xs] by simp

lemma first_hour_eq:
  "data \<noteq> [] \<Longrightarrow> fold min (map hour_of data) (hour_of (hd data)) = Min (hour_of ` set data)"
  by (cases data) (simp_all add: fold_min_Min)

lemma last_hour_eq:
  "data \<noteq> [] \<Longrightarrow> fold max (map hour_of data) (hour_of (hd data)) = Max (hour_of ` set data)"
  by (cases data) (simp_all add: fold_max_Max)

lemma downsampled_data_nonempty:
  "data \<noteq> [] \<Longrightarrow>
     downsampled_data data =
       map (\<lambda>h. \<lparr>bin_timestamp_local = 3600 * h,
                  bin_status = mean_status (map status (filter (\<lambda>e. hour_of e = h) data))\<rparr>)
           [Min (hour_of ` set data) ..< Suc (Max (hour_of ` set data))]"
  by (simp add: downsampled_data_def first_hour_eq last_hour_eq Let_def)

text \<open>
  Claim C2, as the code has it. The output of the downsampler has one entry for every
  local clock hour from the hour of the earliest observation to the hour of the latest
  one, both included, and no entry outside that span. The value of an entry is the mean
  of the status values observed in its hour; it is NaN exactly when no observation falls
  in that hour. Empty input gives an empty output.
\<close>

theorem downsampled_data_span:
  "downsampled_data [] = [] \<and>
   (data \<noteq> [] \<longrightarrow>
      map bin_timestamp_local (downsampled_data data) =
        map (\<lambda>h. 3600 * h) [Min (hour_of ` set data) ..< Suc (Max (hour_of ` set data))]) \<and>
   (\<forall>s\<in>set (downsampled_data data).
      bin_status s =
        mean_status (map status (filter (\<lambda>e. 3600 * hour_of e = bin_timestamp_local s) data)) \<and>
      (bin_status s = None \<longleftrightarrow> (\<forall>e\<in>set data. 3600 * hour_of e \<noteq> bin_timestamp_local s)))"
proof (cases "data = []")
  case True
  then show ?thesis by (simp add: downsampled_data_def)
next
  case False
  note ds = downsampled_data_nonempty [OF False]
  have none: "mean_status (map status (filter P data)) = None \<longleftrightarrow> (\<forall>e\<in>set data. \<not> P e)" for P
    by (simp add: mean_status_def filter_empty_conv)
  have A: "map bin_timestamp_local (downsampled_data data) =
        map (\<lambda>h. 3600 * h) [Min (hour_of ` set data) ..< Suc (Max (hour_of ` set data))]"
    unfolding ds by (simp add: comp_def del: upt_Suc)
  have B: "bin_status s =
        mean_status (map status (filter (\<lambda>e. 3600 * hour_of e = bin_timestamp_local s) data)) \<and>
      (bin_status s = None \<longleftrightarrow> (\<forall>e\<in>set data. 3600 * hour_of e \<noteq> bin_timestamp_local s))"
    if "s \<in> set (downsampled_data data)" for s
  proof -
    from that obtain h where
      "s = \<lparr>bin_timestamp_local = 3600 * h,
            bin_status = mean_status (map status (filter (\<lambda>e. hour_of e = h) data))\<rparr>"
      unfolding ds by auto
    then show ?thesis by (simp add: none)
  qed
  have C: "downsampled_data [] = []"
    by (simp add: downsampled_data_def)
  from A B C show ?thesis by blast
qed

text \<open>
  Observations at 09:00:00, 09:30:00 and 11:00:00 give entries for the hours 9, 10 and 11,
  with the values one half, NaN and 0.
\<close>

theorem downsampled_data_span_witness:
  "gap_data \<noteq> [] \<and>
   map bin_timestamp_local (downsampled_data gap_data) = [32400, 36000, 39600] \<and>
   map bin_status (downsampled_data gap_data) = [Some (1 / 2), None, Some 0]"
proof -
  have e: "downsampled_data gap_data =
      [\<lparr>bin_timestamp_local = 32400, bin_status = Some (1 / 2)\<rparr>,
       \<lparr>bin_timestamp_local = 36000, bin_status = None\<rparr>,
       \<lparr>bin_timestamp_local = 39600, bin_status = Some 0\<rparr>]"
    by (simp add: downsampled_data_def gap_data_def hour_of_def mean_status_def)
  have n: "gap_data \<noteq> []" by (simp add: gap_data_def)
  from downsampled_data_span [of gap_data] n
  have "map bin_timestamp_local (downsampled_data gap_data) =
        map (\<lambda>h. 3600 * h) [Min (hour_of ` set gap_data) ..< Suc (Max (hour_of ` set gap_data))]"
    by blast
  then have "map bin_timestamp_local (downsampled_data gap_data) = [32400, 36000, 39600]"
    by (simp add: gap_data_def hour_of_def)
  with n e show ?thesis by simp
qed

text \<open>
  Claim C2 as stated fails: observations in the hours 9 and 11 only give an entry for
  the hour 10 as well, with the value NaN.
\<close>

theorem gap_hour_counterexample:
  "map hour_of [\<lparr>timestamp_local = 32400, status = 1\<rparr>, \<lparr>timestamp_local = 39600, status = 0\<rparr>] =
     [9, 11] \<and>
   downsampled_data [\<lparr>timestamp_local = 32400, status = 1\<rparr>, \<lparr>timestamp_local = 39600, status = 0\<rparr>] =
     [\<lparr>bin_timestamp_local = 32400, bin_status = Some 1\<rparr>,
      \<lparr>bin_timestamp_local = 36000, bin_status = None\<rparr>,
      \<lparr>bin_timestamp_local = 39600, bin_status = Some 0\<rparr>]"
  by (simp add: downsampled_data_def hour_of_def mean_status_def)

section \<open>Ranges of the values the pipeline carries\<close>

text \<open>
  Every entry the normalizer makes has status 0 or 1 and a time of day below 24 hours,
  whatever the documents are. The filter and the sort keep entries as they are, and the
  downsampler turns such entries into at most 24 hourly values between 0 and 1 (NaN
  counted as 0, as the aggregator counts it).
\<close>

lemma setitem_set: "p \<in> set (setitem d k v) \<Longrightarrow> p = (k, v) \<or> p \<in> set d"
  unfolding setitem_def by (induction d) (auto split: if_splits)

lemma getitem_set: "getitem d k = Inr v \<Longrightarrow> (k, v) \<in> set d"
  by (auto simp: getitem_def split: option.splits dest: map_of_SomeD)

lemma strftime_HMS_bound: "strftime_HMS t < 86400"
  by (simp add: strftime_HMS_def)

lemma poll_loop_ok:
  "poll_loop w tz docs data = Inr d \<Longrightarrow> \<forall>p\<in>set data. entries_ok (snd p) \<Longrightarrow>
     \<forall>p\<in>set d. entries_ok (snd p)"
proof (induction docs arbitrary: data)
  case Nil
  then show ?case by simp
next
  case (Cons doc docs)
  from Cons.prems(1) obtain t where t: "timestamp_utc doc = Some t"
    by (cases "timestamp_utc doc") auto
  show ?case
  proof (cases "t > datetime_now w")
    case True
    with Cons t show ?thesis by simp
  next
    case False
    from Cons.prems(1) t False obtain local_time bucket where
      l: "utc_to_local w (Some t) tz = Inr local_time" and
      b: "getitem data (str (weekday local_time)) = Inr bucket" and
      r: "poll_loop w tz docs
            (setitem data (str (weekday local_time))
               (bucket @ [\<lparr>timestamp_local = strftime_HMS local_time,
                           status = (if doc_status doc = ''active'' then 1 else 0)\<rparr>])) = Inr d"
      by (auto split: sum.splits)
    have "entries_ok bucket"
      using getitem_set [OF b] Cons.prems(2) by fastforce
    then have "entries_ok (bucket @ [\<lparr>timestamp_local = strftime_HMS local_time,
                           status = (if doc_status doc = ''active'' then 1 else 0)\<rparr>])"
      by (simp add: entries_ok_def strftime_HMS_bound)
    with Cons.prems(2) have "\<forall>p\<in>set (setitem data (str (weekday local_time))
               (bucket @ [\<lparr>timestamp_local = strftime_HMS local_time,
                           status = (if doc_status doc = ''active'' then 1 else 0)\<rparr>])). entries_ok (snd p)"
      by (auto dest: setitem_set)
    from Cons.IH [OF r this] show ?thesis .
  qed
qed

lemma empty_week_entries_ok: "\<forall>p\<in>set (empty_week :: entry list dict). entries_ok (snd p)"
  by (simp add: empty_week_def entries_ok_def)

lemma empty_week_samples_ok: "\<forall>p\<in>set (empty_week :: sample list dict). samples_ok (snd p)"
  by (simp add: empty_week_def samples_ok_def)

lemma get_poll_data_ok:
  "get_poll_data_of_store w sid = Inr d \<Longrightarrow> \<forall>p\<in>set d. entries_ok (snd p)"
  unfolding get_poll_data_of_store_def by (rule poll_loop_ok [OF _ empty_week_entries_ok])

lemma mean_status_range:
  assumes "\<forall>x\<in>set xs. x = 0 \<or> x = (1::int)"
  shows "0 \<le> nan_to_zero (mean_status xs) \<and> nan_to_zero (mean_status xs) \<le> 1"
proof (cases "xs = []")
  case True
  then show ?thesis by (simp add: mean_status_def nan_to_zero_def)
next
  case False
  have lo: "0 \<le> sum_list xs" using assms by (induction xs) auto
  have hi: "sum_list xs \<le> int (length xs)" using assms by (induction xs) auto
  have pos: "0 < int (length xs)" using False by simp
  have "(of_int (sum_list xs) :: rat) \<le> of_int (int (length xs))"
    using hi by (simp only: of_int_le_iff)
  moreover have "(0::rat) \<le> of_int (sum_list xs)" using lo by simp
  moreover have "(0::rat) < of_int (int (length xs))" using pos by (simp only: of_int_0_less_iff)
  ultimately show ?thesis
    using False by (simp add: mean_status_def nan_to_zero_def divide_le_eq_1_pos)
qed

lemma downsampled_data_ok:
  assumes "entries_ok es"
  shows "samples_ok (downsampled_data es)"
proof (cases "es = []")
  case True
  then show ?thesis by (simp add: downsampled_data_def samples_ok_def)
next
  case False
  note ds = downsampled_data_nonempty [OF False]
  have "\<forall>h\<in>hour_of ` set es. h < 24"
    using assms by (auto simp: entries_ok_def hour_of_def)
  then have "Max (hour_of ` set es) < 24"
    using False by (subst Max_less_iff) auto
  then have len: "length (downsampled_data es) \<le> 24"
    unfolding ds by (simp del: upt_Suc)
  have "0 \<le> nan_to_zero (bin_status s) \<and> nan_to_zero (bin_status s) \<le> 1"
    if "s \<in> set (downsampled_data es)" for s
  proof -
    from that obtain h where
      s: "s = \<lparr>bin_timestamp_local = 3600 * h,
            bin_status = mean_status (map status (filter (\<lambda>e. hour_of e = h) es))\<rparr>"
      unfolding ds by auto
    have "\<forall>x\<in>set (map status (filter (\<lambda>e. hour_of e = h) es)). x = 0 \<or> x = 1"
      using assms by (auto simp: entries_ok_def)
    from mean_status_range [OF this] s show ?thesis by simp
  qed
  with len show ?thesis by (simp add: samples_ok_def)
qed

lemma filter_status_subset:
  "filter_status_by_business_hours ds bh = Inr out \<Longrightarrow> set out \<subseteq> set ds"
  using filter_loop_subset [of ds bh "[]" out] by (simp add: filter_status_by_business_hours_def)

lemma per_day_loop_ok:
  "per_day_loop spd bh ds acc = Inr pd \<Longrightarrow> \<forall>p\<in>set spd. entries_ok (snd p) \<Longrightarrow>
     \<forall>p\<in>set acc. samples_ok (snd p) \<Longrightarrow> \<forall>p\<in>set pd. samples_ok (snd p)"
proof (induction ds arbitrary: acc)
  case Nil
  then show ?case by simp
next
  case (Cons d ds)
  from Cons.prems(1) obtain day_status day_business_hours filtered where
    g: "getitem spd (str d) = Inr day_status" and
    f: "filter_status_by_business_hours day_status day_business_hours = Inr filtered" and
    r: "per_day_loop spd bh ds
          (setitem acc (str d) (downsampled_data (sort_key timestamp_local filtered))) = Inr pd"
    by (auto split: sum.splits)
  have "entries_ok day_status"
    using getitem_set [OF g] Cons.prems(2) by fastforce
  then have "entries_ok (sort_key timestamp_local filtered)"
    using filter_status_subset [OF f] by (auto simp: entries_ok_def)
  then have "samples_ok (downsampled_data (sort_key timestamp_local filtered))"
    by (rule downsampled_data_ok)
  with Cons.prems(3)
  have "\<forall>p\<in>set (setitem acc (str d) (downsampled_data (sort_key timestamp_local filtered))).
          samples_ok (snd p)"
    by (auto dest: setitem_set)
  from Cons.IH [OF r Cons.prems(2) this] show ?case .
qed

lemma get_store_poll_data_per_day_ok:
  "get_store_poll_data_per_day spd bh = Inr pd \<Longrightarrow> \<forall>p\<in>set spd. entries_ok (snd p) \<Longrightarrow>
     \<forall>p\<in>set pd. samples_ok (snd p)"
  unfolding get_store_poll_data_per_day_def
  by (rule per_day_loop_ok [OF _ _ empty_week_samples_ok])

section \<open>Window aggregator\<close>

text \<open>
  An entry whose value is NaN adds nothing to a sum, and gives 0 minutes when it is the
  entry of the last hour.
\<close>

lemma nan_counted_as_zero:
  "week_day_loop (\<lparr>bin_timestamp_local = t, bin_status = None\<rparr> # rest) a = week_day_loop rest a"
  "today_loop lh (\<lparr>bin_timestamp_local = t, bin_status = None\<rparr> # rest) (h, m) =
     today_loop lh rest (h, if t = lh then 0 else m)"
  by (simp_all add: nan_to_zero_def)

text \<open>
  The loops of the aggregator add values between 0 and 1: a sum over a day lies between
  the start value and the start value plus the number of entries, and the minutes of the
  last hour lie between 0 and 60.
\<close>

lemma today_loop_bounds:
  assumes "\<forall>s\<in>set ss. 0 \<le> nan_to_zero (bin_status s) \<and> nan_to_zero (bin_status s) \<le> 1"
    and "0 \<le> m" "m \<le> 60" "0 \<le> h"
  shows "0 \<le> fst (today_loop lh ss (h, m)) \<and>
         fst (today_loop lh ss (h, m)) \<le> h + of_nat (length ss) \<and>
         0 \<le> snd (today_loop lh ss (h, m)) \<and> snd (today_loop lh ss (h, m)) \<le> 60"
  using assms
proof (induction ss arbitrary: h m)
  case Nil
  then show ?case by simp
next
  case (Cons s ss)
  let ?v = "nan_to_zero (bin_status s)"
  let ?m' = "if bin_timestamp_local s = lh
             then (case bin_status s of None \<Rightarrow> 0 | Some v \<Rightarrow> v * 60) else m"
  from Cons.prems have v: "0 \<le> ?v" "?v \<le> 1" by auto
  have mv: "(case bin_status s of None \<Rightarrow> 0 | Some v \<Rightarrow> v * 60) = ?v * 60"
    by (simp add: nan_to_zero_def split: option.splits)
  have m': "0 \<le> ?m'" "?m' \<le> 60"
    using v Cons.prems(2,3) by (auto simp: mv)
  have h': "0 \<le> h + ?v" using v Cons.prems(4) by simp
  from Cons.IH [OF _ m' h'] Cons.prems(1)
  have "0 \<le> fst (today_loop lh ss (h + ?v, ?m')) \<and>
        fst (today_loop lh ss (h + ?v, ?m')) \<le> h + ?v + of_nat (length ss) \<and>
        0 \<le> snd (today_loop lh ss (h + ?v, ?m')) \<and> snd (today_loop lh ss (h + ?v, ?m')) \<le> 60"
    by simp
  with v show ?case by simp
qed

lemma week_day_loop_bounds:
  assumes "\<forall>s\<in>set ss. 0 \<le> nan_to_zero (bin_status s) \<and> nan_to_zero (bin_status s) \<le> 1"
  shows "a \<le> week_day_loop ss a \<and> week_day_loop ss a \<le> a + of_nat (length ss)"
  using assms
proof (induction ss arbitrary: a)
  case Nil
  then show ?case by simp
next
  case (Cons s ss)
  let ?v = "nan_to_zero (bin_status s)"
  from Cons.prems have v: "0 \<le> ?v" "?v \<le> 1" by auto
  from Cons.IH [of "a + ?v"] Cons.prems
  have "a + ?v \<le> week_day_loop ss (a + ?v) \<and>
        week_day_loop ss (a + ?v) \<le> a + ?v + of_nat (length ss)" by simp
  with v show ?case by simp
qed

lemma week_loop_bounds:
  "week_loop pd ds a = Inr r \<Longrightarrow> \<forall>p\<in>set pd. samples_ok (snd p) \<Longrightarrow>
     a \<le> r \<and> r \<le> a + 24 * of_nat (length ds)"
proof (induction ds arbitrary: a)
  case Nil
  then show ?case by simp
next
  case (Cons d ds)
  from Cons.prems(1) obtain day where
    g: "getitem pd (str d) = Inr day" and
    r: "week_loop pd ds (week_day_loop day a) = Inr r"
    by (auto split: sum.splits)
  have ok: "samples_ok day"
    using getitem_set [OF g] Cons.prems(2) by fastforce
  then have "a \<le> week_day_loop day a \<and> week_day_loop day a \<le> a + of_nat (length day)"
    using week_day_loop_bounds [of day a] by (simp add: samples_ok_def)
  moreover have "(of_nat (length day) :: rat) \<le> 24"
    using ok by (simp add: samples_ok_def)
  moreover from Cons.IH [OF r Cons.prems(2)]
  have "week_day_loop day a \<le> r \<and> r \<le> week_day_loop day a + 24 * of_nat (length ds)" .
  ultimately show ?case by (simp add: algebra_simps)
qed

lemma monday_per_day:
  "get_store_poll_data_per_day monday_entries (fill_default empty_week) = Inr monday_samples"
  by (simp add: per_day_defs monday_samples_def monday_entries_def)

lemma monday_week: "uptime_hours_this_week monday_samples = Inr (1 / 2)"
  by (simp add: uptime_hours_this_week_def monday_samples_def str_small getitem_def nan_to_zero_def)

lemma tuesday_poll: "get_poll_data_of_store env_tuesday ''s1'' = Inr monday_entries"
  by (simp add: env_tuesday_def poll_defs monday_entries_def)

lemma tuesday_hours: "get_business_hours_of_store env_tuesday ''s1'' = Inr (fill_default empty_week)"
  by (simp add: get_business_hours_of_store_def env_tuesday_def)

lemma tuesday_today: "uptime_today env_tuesday monday_samples = Inr (1 / 2, 30)"
  by (simp add: uptime_today_def env_tuesday_def clock_defs monday_samples_def str_small
      getitem_def nan_to_zero_def)

lemma tuesday_row: "current_result env_tuesday ''s1'' = Inr row_tuesday"
  by (simp add: current_result_def tuesday_poll tuesday_hours monday_per_day tuesday_today
      monday_week row_tuesday_def)

lemma tuesday_report: "generate_report env_tuesday = Inr [row_tuesday]"
proof -
  have "get_unique_store_ids_from_poll env_tuesday = [''s1'']"
    by (simp add: get_unique_store_ids_from_poll_def env_tuesday_def)
  then show ?thesis by (simp add: generate_report_def tuesday_row)
qed

section \<open>Report rows\<close>

text \<open>
  Every row of a report is the row \<open>current_result\<close> returns for some store, and its
  fields are what the aggregator returned for the store's downsampled week.
\<close>

lemma report_loop_rows:
  "report_loop w sids acc = Inr rows \<Longrightarrow> r \<in> set rows \<Longrightarrow>
     r \<in> set acc \<or> (\<exists>sid\<in>set sids. current_result w sid = Inr r)"
proof (induction sids arbitrary: acc)
  case Nil
  then show ?case by simp
next
  case (Cons sid sids)
  from Cons.prems(1) obtain row where
    c: "current_result w sid = Inr row" and l: "report_loop w sids (acc @ [row]) = Inr rows"
    by (auto split: sum.splits)
  from Cons.IH [OF l Cons.prems(2)] c show ?case by auto
qed

lemma generate_report_rows:
  "generate_report w = Inr rows \<Longrightarrow> r \<in> set rows \<Longrightarrow> \<exists>sid. current_result w sid = Inr r"
  unfolding generate_report_def by (drule report_loop_rows) auto

lemma current_result_parts:
  assumes "current_result w sid = Inr r"
  shows "\<exists>pd day.
           (\<forall>p\<in>set pd. samples_ok (snd p)) \<and> samples_ok day \<and>
           uptime_last_day r = fst (today_loop (strftime_H0000 (datetime_now w - 3600000000)) day (0, 0)) \<and>
           uptime_last_hour r = snd (today_loop (strftime_H0000 (datetime_now w - 3600000000)) day (0, 0)) \<and>
           week_loop pd [0, 1, 2, 3, 4, 5, 6] 0 = Inr (uptime_last_week r) \<and>
           downtime_last_hour r = 60 - uptime_last_hour r \<and>
           downtime_last_day r = 24 - uptime_last_day r \<and>
           downtime_last_week r = 168 - uptime_last_week r"
proof -
  from assms obtain spd bh pd h m wk where
    p: "get_poll_data_of_store w sid = Inr spd" and
    d: "get_store_poll_data_per_day spd bh = Inr pd" and
    t: "uptime_today w pd = Inr (h, m)" and
    k: "uptime_hours_this_week pd = Inr wk" and
    r: "r = \<lparr>store_id = sid, uptime_last_hour = m, downtime_last_hour = 60 - m,
             uptime_last_day = h, downtime_last_day = 24 - h,
             uptime_last_week = wk, downtime_last_week = 168 - wk\<rparr>"
    unfolding current_result_def by (auto split: sum.splits prod.splits)
  have ok: "\<forall>p\<in>set pd. samples_ok (snd p)"
    by (rule get_store_poll_data_per_day_ok [OF d get_poll_data_ok [OF p]])
  from t obtain day where
    g: "getitem pd (str (weekday (datetime_now w) - 1)) = Inr day" and
    hm: "(h, m) = today_loop (strftime_H0000 (datetime_now w - 3600000000)) day (0, 0)"
    unfolding uptime_today_def by (auto simp: Let_def split: sum.splits)
  have "samples_ok day" using getitem_set [OF g] ok by fastforce
  moreover have "h = fst (today_loop (strftime_H0000 (datetime_now w - 3600000000)) day (0, 0))"
    "m = snd (today_loop (strftime_H0000 (datetime_now w - 3600000000)) day (0, 0))"
    using hm by (metis fst_conv, metis snd_conv)
  ultimately show ?thesis
    using ok k r by (auto simp: uptime_hours_this_week_def)
qed

text \<open>
  Claim C5. In every row of a report that a run produces, no uptime figure exceeds the
  nominal length of its window (60 minutes, 24 hours, 168 hours) and none is negative,
  so no downtime field is negative. No value is clamped anywhere: the bounds follow from
  the statuses being 0 or 1, a day having at most 24 hourly entries and a week seven
  days, and the downtime is the plain difference.
\<close>

theorem uptime_within_window:
  assumes "generate_report w = Inr rows" and "r \<in> set rows"
  shows "0 \<le> uptime_last_hour r \<and> uptime_last_hour r \<le> 60 \<and>
         0 \<le> uptime_last_day r \<and> uptime_last_day r \<le> 24 \<and>
         0 \<le> uptime_last_week r \<and> uptime_last_week r \<le> 168 \<and>
         0 \<le> downtime_last_hour r \<and> 0 \<le> downtime_last_day r \<and> 0 \<le> downtime_last_week r"
proof -
  from generate_report_rows [OF assms] obtain sid where "current_result w sid = Inr r" ..
  from current_result_parts [OF this] obtain pd day where
    ok: "\<forall>p\<in>set pd. samples_ok (snd p)" and day: "samples_ok day" and
    h: "uptime_last_day r = fst (today_loop (strftime_H0000 (datetime_now w - 3600000000)) day (0, 0))" and
    m: "uptime_last_hour r = snd (today_loop (strftime_H0000 (datetime_now w - 3600000000)) day (0, 0))" and
    k: "week_loop pd [0, 1, 2, 3, 4, 5, 6] 0 = Inr (uptime_last_week r)" and
    dh: "downtime_last_hour r = 60 - uptime_last_hour r" and
    dd: "downtime_last_day r = 24 - uptime_last_day r" and
    dw: "downtime_last_week r = 168 - uptime_last_week r"
    by blast
  have "(of_nat (length day) :: rat) \<le> 24" using day by (simp add: samples_ok_def)
  with today_loop_bounds [of day 0 0 "strftime_H0000 (datetime_now w - 3600000000)"] day h m
  have a: "0 \<le> uptime_last_day r \<and> uptime_last_day r \<le> 24 \<and>
        0 \<le> uptime_last_hour r \<and> uptime_last_hour r \<le> 60"
    by (simp add: samples_ok_def)
  from week_loop_bounds [OF k ok]
  have b: "0 \<le> uptime_last_week r \<and> uptime_last_week r \<le> 168" by simp
  from a b dh dd dw show ?thesis by simp
qed

theorem uptime_within_window_witness:
  "generate_report env_tuesday = Inr [row_tuesday] \<and> row_tuesday \<in> set [row_tuesday] \<and>
   uptime_last_hour row_tuesday \<le> 60 \<and> uptime_last_day row_tuesday \<le> 24 \<and>
   uptime_last_week row_tuesday \<le> 168 \<and> 0 \<le> downtime_last_hour row_tuesday \<and>
   0 \<le> downtime_last_day row_tuesday \<and> 0 \<le> downtime_last_week row_tuesday"
proof -
  have m: "row_tuesday \<in> set [row_tuesday]" by simp
  from uptime_within_window [OF tuesday_report m] tuesday_report m show ?thesis by blast
qed

section \<open>Report orchestrator: a store whose pipeline fails\<close>

text \<open>
  Nothing in \<open>generate_report\<close> catches an exception. The loop over the stores ends at
  the first store whose pipeline raises, with that exception; it returns the rows of all
  stores when no pipeline raises.
\<close>

lemma report_loop_first_failure:
  "report_loop w sids acc =
     (case find (\<lambda>sid. isl (current_result w sid)) sids of
        Some sid \<Rightarrow> Inl (projl (current_result w sid))
      | None \<Rightarrow> Inr (acc @ map (\<lambda>sid. projr (current_result w sid)) sids))"
proof (induction sids arbitrary: acc)
  case Nil
  then show ?case by simp
next
  case (Cons sid sids)
  then show ?case by (cases "current_result w sid") (simp_all split: option.splits)
qed

text \<open>
  Claim C8, as the code has it. When the pipeline fails for a store, the failure is not
  caught: \<open>generate_report\<close> raises the exception of the first store that fails and
  produces no row at all, the rows of the stores before it included. It produces the
  rows of all stores, in the order of the stores, exactly when no store fails.
\<close>

theorem site_failure_fails_run:
  "generate_report w =
     (case find (\<lambda>sid. isl (current_result w sid)) (get_unique_store_ids_from_poll w) of
        Some sid \<Rightarrow> Inl (projl (current_result w sid))
      | None \<Rightarrow> Inr (map (\<lambda>sid. projr (current_result w sid)) (get_unique_store_ids_from_poll w)))"
  by (simp add: generate_report_def report_loop_first_failure split: option.splits)

lemma two_sites_ids: "get_unique_store_ids_from_poll env_two_sites = [''s1'', ''s2'']"
  by (simp add: get_unique_store_ids_from_poll_def env_two_sites_def env_tuesday_def)

lemma two_sites_poll:
  "get_poll_data_of_store env_two_sites ''s1'' = Inr monday_entries"
  "get_poll_data_of_store env_two_sites ''s2'' = Inl ValueError"
  by (simp_all add: env_two_sites_def env_tuesday_def poll_defs monday_entries_def)

lemma two_sites_row: "current_result env_two_sites ''s1'' = Inr row_tuesday"
proof -
  have "get_business_hours_of_store env_two_sites ''s1'' = Inr (fill_default empty_week)"
    by (simp add: get_business_hours_of_store_def env_two_sites_def env_tuesday_def)
  moreover have "uptime_today env_two_sites monday_samples = Inr (1 / 2, 30)"
    by (simp add: uptime_today_def env_two_sites_def env_tuesday_def clock_defs monday_samples_def
        str_small getitem_def nan_to_zero_def)
  ultimately show ?thesis
    by (simp add: current_result_def two_sites_poll monday_per_day monday_week row_tuesday_def)
qed

lemma two_sites_fail: "current_result env_two_sites ''s2'' = Inl ValueError"
  by (simp add: current_result_def two_sites_poll)

lemma two_sites_report: "generate_report env_two_sites = Inl ValueError"
  by (simp add: generate_report_def two_sites_ids two_sites_row two_sites_fail)

text \<open>
  In \<open>env_two_sites\<close> the first store that fails is \<open>s2\<close>, and the run raises its
  \<open>ValueError\<close>.
\<close>

theorem site_failure_fails_run_witness:
  "find (\<lambda>sid. isl (current_result env_two_sites sid))
     (get_unique_store_ids_from_poll env_two_sites) = Some ''s2'' \<and>
   generate_report env_two_sites = Inl ValueError"
proof -
  have f: "find (\<lambda>sid. isl (current_result env_two_sites sid))
             (get_unique_store_ids_from_poll env_two_sites) = Some ''s2''"
    by (simp add: two_sites_ids two_sites_row two_sites_fail)
  from site_failure_fails_run [of env_two_sites] f show ?thesis
    by (simp add: two_sites_fail)
qed

text \<open>
  Claim C8 as stated fails: in \<open>env_two_sites\<close> the pipeline of \<open>s1\<close> returns its row,
  the pipeline of \<open>s2\<close> raises \<open>ValueError\<close> on the malformed observation, and the run
  raises \<open>ValueError\<close> instead of producing the row of \<open>s1\<close>.
\<close>

theorem site_failure_counterexample:
  "get_unique_store_ids_from_poll env_two_sites = [''s1'', ''s2''] \<and>
   current_result env_two_sites ''s1'' = Inr row_tuesday \<and>
   current_result env_two_sites ''s2'' = Inl ValueError \<and>
   generate_report env_two_sites = Inl ValueError"
  by (simp add: two_sites_ids two_sites_row two_sites_report two_sites_fail)

section \<open>Report job coordinator\<close>

text \<open>
  An update that matches sentinel documents only, applied to a collection with one
  sentinel document that matches, changes that document and leaves it the one sentinel.
\<close>

lemma filter_update_one:
  assumes "\<And>d. p d \<Longrightarrow> is_sentinel d" and "\<And>d. is_sentinel (f d) = is_sentinel d"
    and "filter is_sentinel coll = [s]" and "p s"
  shows "filter is_sentinel (update_one p f coll) = [f s]"
  using assms(3)
proof (induction coll)
  case Nil
  then show ?case by simp
next
  case (Cons d ds)
  show ?case
  proof (cases "is_sentinel d")
    case True
    with Cons.prems have "d = s" "filter is_sentinel ds = []" by auto
    with assms(2,4) True show ?thesis by simp
  next
    case False
    with assms(1) have "\<not> p d" by auto
    with False Cons show ?thesis by simp
  qed
qed

lemma no_running:
  "filter is_sentinel coll = [Sentinel ''complete'' rid] \<Longrightarrow>
     find (sentinel_with_status ''running'') coll = None"
proof -
  assume a: "filter is_sentinel coll = [Sentinel ''complete'' rid]"
  have "\<not> sentinel_with_status ''running'' d" if "d \<in> set coll" for d
  proof (cases d)
    case (Sentinel st r)
    with that have "d \<in> set (filter is_sentinel coll)" by simp
    with a Sentinel show ?thesis by simp
  next
    case (Report r rows st)
    then show ?thesis by simp
  qed
  then show ?thesis by (simp add: find_None_iff)
qed

text \<open>
  Claim C7, as the code has it. Started on a collection whose one sentinel document has
  status \<open>complete\<close>: when report generation returns, the run ends with the sentinel back
  at status \<open>complete\<close>, carrying the id of the run, and answers \<open>Complete\<close>; when report
  generation raises, the exception leaves \<open>trigger_report\<close> before the release step, and
  the sentinel stays at status \<open>running\<close> with the id of the run.
\<close>

theorem sentinel_release:
  assumes "filter is_sentinel reports_coll = [Sentinel ''complete'' rid]"
  shows "(generate_report w = Inr rows \<longrightarrow>
            filter is_sentinel (fst (trigger_report w uuid4 reports_coll)) = [Sentinel ''complete'' uuid4] \<and>
            snd (trigger_report w uuid4 reports_coll) =
              Inr \<lparr>message = ''Complete'', response_report_id = uuid4, status_code = 200\<rparr>) \<and>
         (generate_report w = Inl e \<longrightarrow>
            filter is_sentinel (fst (trigger_report w uuid4 reports_coll)) = [Sentinel ''running'' uuid4] \<and>
            snd (trigger_report w uuid4 reports_coll) = Inl e)"
proof -
  let ?c1 = "update_one (sentinel_with_status ''complete'')
               (set_status_report_id ''running'' uuid4) reports_coll"
  have p1: "sentinel_with_status ''complete'' d \<Longrightarrow> is_sentinel d" for d by (cases d) simp_all
  have f1: "is_sentinel (set_status_report_id ''running'' uuid4 d) = is_sentinel d" for d
    by (cases d) simp_all
  have f2: "is_sentinel (set_status ''complete'' d) = is_sentinel d" for d
    by (cases d) simp_all
  have c1: "filter is_sentinel ?c1 = [Sentinel ''running'' uuid4]"
    using filter_update_one [of "sentinel_with_status ''complete''"
        "set_status_report_id ''running'' uuid4", OF p1 f1 assms] by simp
  have "filter is_sentinel (?c1 @ [Report uuid4 rows ''complete'']) = [Sentinel ''running'' uuid4]"
    using c1 by simp
  from filter_update_one [of is_sentinel "set_status ''complete''", OF _ f2 this]
  have c2: "filter is_sentinel
              (update_one is_sentinel (set_status ''complete'') (?c1 @ [Report uuid4 rows ''complete'']))
            = [Sentinel ''complete'' uuid4]" by simp
  from c1 c2 no_running [OF assms] show ?thesis
    by (simp add: trigger_report_def Let_def)
qed

text \<open>
  The run of \<open>env_tuesday\<close> returns and releases the sentinel; the run of
  \<open>env_two_sites\<close> raises and leaves it running.
\<close>

theorem sentinel_release_witness:
  "filter is_sentinel [Sentinel ''complete'' ''r0''] = [Sentinel ''complete'' ''r0''] \<and>
   generate_report env_tuesday = Inr [row_tuesday] \<and>
   filter is_sentinel (fst (trigger_report env_tuesday ''r1'' [Sentinel ''complete'' ''r0''])) =
     [Sentinel ''complete'' ''r1''] \<and>
   generate_report env_two_sites = Inl ValueError \<and>
   filter is_sentinel (fst (trigger_report env_two_sites ''r1'' [Sentinel ''complete'' ''r0''])) =
     [Sentinel ''running'' ''r1'']"
proof -
  have h: "filter is_sentinel [Sentinel ''complete'' ''r0''] = [Sentinel ''complete'' ''r0'']"
    by simp
  from sentinel_release [OF h, of env_tuesday "[row_tuesday]" "''r1''" ValueError]
    sentinel_release [OF h, of env_two_sites "[]" "''r1''" ValueError]
    tuesday_report two_sites_report h
  show ?thesis by simp
qed

text \<open>
  Claim C7 as stated fails: in \<open>env_two_sites\<close> report generation raises \<open>ValueError\<close>,
  and the run ends with the sentinel at status \<open>running\<close>.
\<close>

theorem sentinel_stuck_counterexample:
  "trigger_report env_two_sites ''r1'' [Sentinel ''complete'' ''r0''] =
     ([Sentinel ''running'' ''r1''], Inl ValueError)"
  by (simp add: trigger_report_def two_sites_report)

text \<open>
  A run that raises leaves a collection in which \<open>find_one\<close> finds the sentinel at status
  \<open>running\<close>, with the id of that run.
\<close>

lemma find_filter_sentinel:
  "(\<And>d. p d \<Longrightarrow> is_sentinel d) \<Longrightarrow> find p (filter is_sentinel xs) = find p xs"
  by (induction xs) auto

lemma trigger_report_raises:
  assumes "filter is_sentinel reports_coll = [Sentinel ''complete'' rid]"
    and "generate_report w = Inl e"
  shows "find (sentinel_with_status ''running'') (fst (trigger_report w uuid4 reports_coll)) =
           Some (Sentinel ''running'' uuid4)"
proof -
  let ?c1 = "update_one (sentinel_with_status ''complete'')
               (set_status_report_id ''running'' uuid4) reports_coll"
  have p1: "sentinel_with_status s d \<Longrightarrow> is_sentinel d" for s d by (cases d) simp_all
  have f1: "is_sentinel (set_status_report_id ''running'' uuid4 d) = is_sentinel d" for d
    by (cases d) simp_all
  have "filter is_sentinel ?c1 = [Sentinel ''running'' uuid4]"
    using filter_update_one [of "sentinel_with_status ''complete''"
        "set_status_report_id ''running'' uuid4", OF p1 f1 assms(1)] by simp
  then have "find (sentinel_with_status ''running'') ?c1 = Some (Sentinel ''running'' uuid4)"
    using find_filter_sentinel [of "sentinel_with_status ''running''" ?c1, OF p1] by simp
  with no_running [OF assms(1)] assms(2) show ?thesis
    by (simp add: trigger_report_def Let_def)
qed

text \<open>
  Claim C9. A start request that finds the sentinel at status \<open>running\<close> is rejected: it
  draws no report id and starts no generation, it answers \<open>Running\<close> (status code 400)
  with the report id the sentinel holds, and it leaves the collection, the sentinel
  included, as it was; the id \<open>uuid4\<close> that a start would have used and the data \<open>w\<close>
  have no part in the result. In a sequential execution the sentinel is at \<open>running\<close>
  after a run whose generation raised: a start request that follows such a run, begun
  with the id \<open>uuid1\<close>, answers \<open>Running\<close> with \<open>uuid1\<close> and changes nothing.
\<close>

theorem start_while_running:
  "(find (sentinel_with_status ''running'') reports_coll = Some running_doc \<longrightarrow>
      trigger_report w uuid4 reports_coll =
        (reports_coll,
         Inr \<lparr>message = ''Running'', response_report_id = sentinel_report_id running_doc,
              status_code = 400\<rparr>)) \<and>
   (filter is_sentinel reports_coll = [Sentinel ''complete'' rid] \<and>
    generate_report w1 = Inl e \<longrightarrow>
      trigger_report w uuid4 (fst (trigger_report w1 uuid1 reports_coll)) =
        (fst (trigger_report w1 uuid1 reports_coll),
         Inr \<lparr>message = ''Running'', response_report_id = uuid1, status_code = 400\<rparr>))"
proof -
  have a: "trigger_report w uuid4 c =
        (c, Inr \<lparr>message = ''Running'', response_report_id = sentinel_report_id d,
                  status_code = 400\<rparr>)"
    if "find (sentinel_with_status ''running'') c = Some d" for c d
    using that by (simp add: trigger_report_def)
  have "trigger_report w uuid4 (fst (trigger_report w1 uuid1 reports_coll)) =
        (fst (trigger_report w1 uuid1 reports_coll),
         Inr \<lparr>message = ''Running'', response_report_id = uuid1, status_code = 400\<rparr>)"
    if "filter is_sentinel reports_coll = [Sentinel ''complete'' rid]" "generate_report w1 = Inl e"
    using a [OF trigger_report_raises [OF that]] by simp
  with a show ?thesis by blast
qed

text \<open>
  A request on a collection whose sentinel is running with id \<open>r1\<close>, and a request after
  the run \<open>r1\<close> of \<open>env_two_sites\<close>, which raised.
\<close>

theorem start_while_running_witness:
  "trigger_report env_tuesday ''r2'' [Sentinel ''running'' ''r1''] =
     ([Sentinel ''running'' ''r1''],
      Inr \<lparr>message = ''Running'', response_report_id = ''r1'', status_code = 400\<rparr>) \<and>
   fst (trigger_report env_two_sites ''r1'' [Sentinel ''complete'' ''r0'']) =
     [Sentinel ''running'' ''r1''] \<and>
   trigger_report env_tuesday ''r2''
     (fst (trigger_report env_two_sites ''r1'' [Sentinel ''complete'' ''r0''])) =
     ([Sentinel ''running'' ''r1''],
      Inr \<lparr>message = ''Running'', response_report_id = ''r1'', status_code = 400\<rparr>)"
proof -
  have h: "find (sentinel_with_status ''running'') [Sentinel ''running'' ''r1''] =
             Some (Sentinel ''running'' ''r1'')" by simp
  have s: "filter is_sentinel [Sentinel ''complete'' ''r0''] = [Sentinel ''complete'' ''r0'']"
    by simp
  have f: "fst (trigger_report env_two_sites ''r1'' [Sentinel ''complete'' ''r0'']) =
             [Sentinel ''running'' ''r1'']"
    by (simp add: trigger_report_def two_sites_report)
  from start_while_running [of "[Sentinel ''running'' ''r1'']" "Sentinel ''running'' ''r1''"
      env_tuesday "''r2''" "''r0''" env_two_sites ValueError "''r1''"] h
  have 1: "trigger_report env_tuesday ''r2'' [Sentinel ''running'' ''r1''] =
     ([Sentinel ''running'' ''r1''],
      Inr \<lparr>message = ''Running'', response_report_id = ''r1'', status_code = 400\<rparr>)"
    by simp
  from start_while_running [of "[Sentinel ''complete'' ''r0'']" "Sentinel ''running'' ''r1''"
      env_tuesday "''r2''" "''r0''" env_two_sites ValueError "''r1''"] s two_sites_report
  have 2: "trigger_report env_tuesday ''r2''
     (fst (trigger_report env_two_sites ''r1'' [Sentinel ''complete'' ''r0''])) =
     (fst (trigger_report env_two_sites ''r1'' [Sentinel ''complete'' ''r0'']),
      Inr \<lparr>message = ''Running'', response_report_id = ''r1'', status_code = 400\<rparr>)"
    by simp
  from 1 2 f show ?thesis by simp
qed

section \<open>Window aggregator: the previous weekday\<close>

text \<open>
  \<open>last_weekday\<close> is the weekday of \<open>datetime.now()\<close> minus one, with no wrap to 6. From
  Tuesday to Sunday that is the key of the previous weekday. On a Monday it is \<open>-1\<close>,
  the week dict has no key \<open>-1\<close>, and the subscript raises \<open>KeyError\<close>.
\<close>

lemma uptime_today_monday:
  "weekday (datetime_now w) = 0 \<Longrightarrow> map fst pd = week_keys \<Longrightarrow>
     uptime_today w pd = Inl (KeyError ''-1'')"
proof -
  assume a: "weekday (datetime_now w) = 0" "map fst pd = week_keys"
  have "''-1'' \<notin> set (map fst pd)" using a(2) by (simp add: week_keys_def)
  then have "map_of pd ''-1'' = None" by (simp add: map_of_eq_None_iff)
  with a(1) show ?thesis by (simp add: uptime_today_def getitem_def str_small)
qed

lemma uptime_today_other_days:
  assumes "0 < weekday (datetime_now w)" and "map fst pd = week_keys"
  shows "\<exists>day. map_of pd (str (weekday (datetime_now w) - 1)) = Some day \<and>
           uptime_today w pd =
             Inr (today_loop (strftime_H0000 (datetime_now w - 3600000000)) day (0, 0))"
proof -
  have "str (weekday (datetime_now w) - 1) \<in> set (map fst pd)"
    using assms weekday_range [of "datetime_now w"] by (simp add: str_week_keys)
  from getitem_present [OF this] show ?thesis
    by (auto simp: uptime_today_def)
qed

text \<open>
  Claim C1. On a Monday the aggregator should read the Sunday bucket (key 6) and still
  produce a result. In \<open>env_monday\<close> the weekday of the run is 0, there is one store, and
  the run raises \<open>KeyError\<close> for the key \<open>-1\<close>: no row is produced.
\<close>

theorem monday_key_error:
  "weekday (datetime_now env_monday) = 0 \<and>
   get_unique_store_ids_from_poll env_monday = [''s1''] \<and>
   generate_report env_monday = Inl (KeyError ''-1'')"
proof -
  have n: "weekday (datetime_now env_monday) = 0"
    by (simp add: env_monday_def env_tuesday_def clock_defs)
  have i: "get_unique_store_ids_from_poll env_monday = [''s1'']"
    by (simp add: get_unique_store_ids_from_poll_def env_monday_def env_tuesday_def)
  have p: "get_poll_data_of_store env_monday ''s1'' = Inr monday_entries"
    by (simp add: env_monday_def env_tuesday_def poll_defs monday_entries_def)
  have b: "get_business_hours_of_store env_monday ''s1'' = Inr (fill_default empty_week)"
    by (simp add: get_business_hours_of_store_def env_monday_def env_tuesday_def)
  have k: "map fst monday_samples = week_keys"
    by (simp add: monday_samples_def week_keys_def)
  have "current_result env_monday ''s1'' = Inl (KeyError ''-1'')"
    by (simp add: current_result_def p b monday_per_day uptime_today_monday [OF n k])
  with n i show ?thesis by (simp add: generate_report_def)
qed

end
